theory Spec2Isabelle
  imports Complex_Main "HOL-Library.Char_ord" "HOL-Library.List_Lexorder"
    "HOL-Library.Product_Lexorder"
begin

section \<open>Labels, arrays and errors\<close>

text \<open>
  The column keys of the feature matrix are tuples of Python values: the metric and the
  tract are strings, the node is an integer. A label is one such value; a label set is
  the Python \<^verbatim>\<open>set\<close> attached to one column.
\<close>

datatype label = Str string | Num int

datatype error = ValueError | IndexError | AttributeError | KeyError

text \<open>
  A numpy array of rank 0, 1 or 2. A rank-2 array carries its number of columns
  (\<^verbatim>\<open>x.shape[1]\<close>), which numpy knows also when there is no row. Feature matrices
  and coefficient vectors have rank 2 and 1; rank 0 stands for the arrays the group
  operations reject.
\<close>

datatype 'a ndarray = Arr0 'a | Arr1 "'a list" | Arr2 nat "'a list list"

fun rank :: "'a ndarray \<Rightarrow> nat" where
  "rank (Arr0 v) = 0"
| "rank (Arr1 xs) = 1"
| "rank (Arr2 n rows) = 2"

fun ncols :: "'a ndarray \<Rightarrow> nat" where
  "ncols (Arr0 v) = 0"
| "ncols (Arr1 xs) = length xs"
| "ncols (Arr2 n rows) = n"

fun wf_ndarray :: "'a ndarray \<Rightarrow> bool" where
  "wf_ndarray (Arr2 n rows) = list_all (\<lambda>r. length r = n) rows"
| "wf_ndarray _ = True"

text \<open>Boolean-mask indexing of one axis: the entries whose mask bit is set, in order.\<close>

definition compress :: "bool list \<Rightarrow> 'a list \<Rightarrow> 'a list" where
  "compress msk xs = map snd (filter fst (zip msk xs))"

text \<open>
  \<^verbatim>\<open>x[:, mask]\<close> on a rank-2 array and \<^verbatim>\<open>x[mask]\<close> on a rank-1 array. numpy raises
  IndexError when the boolean index does not have the length of the indexed axis.
\<close>

fun getitem_cols :: "'a ndarray \<Rightarrow> bool list \<Rightarrow> error + 'a ndarray" where
  "getitem_cols (Arr2 n rows) msk =
     (if length msk = n
      then Inr (Arr2 (length (filter id msk)) (map (compress msk) rows))
      else Inl IndexError)"
| "getitem_cols _ msk = Inl IndexError"

fun getitem_mask :: "'a ndarray \<Rightarrow> bool list \<Rightarrow> error + 'a ndarray" where
  "getitem_mask (Arr1 xs) msk =
     (if length msk = length xs then Inr (Arr1 (compress msk xs)) else Inl IndexError)"
| "getitem_mask _ msk = Inl IndexError"

text \<open>
  \<^verbatim>\<open>set(label) <= label_sets\<close>: the comparison is broadcast over the array of sets, one
  bit per column, set when every component of the label is in the column's set.
\<close>

definition subset_mask :: "label list \<Rightarrow> label set list \<Rightarrow> bool list" where
  "subset_mask lab label_sets = map (\<lambda>s. set lab \<subseteq> s) label_sets"

definition logical_not :: "bool list \<Rightarrow> bool list" where
  "logical_not msk = map Not msk"

definition logical_or :: "bool list \<Rightarrow> bool list \<Rightarrow> bool list" where
  "logical_or a b = map2 (\<or>) a b"

definition zeros_like :: "'b list \<Rightarrow> bool list" where
  "zeros_like label_sets = replicate (length label_sets) False"

section \<open>Group selection\<close>

text \<open>The common tail of the four operations: index by the mask according to the rank.\<close>

definition take_masked :: "'a ndarray \<Rightarrow> bool list \<Rightarrow> error + 'a ndarray" where
  "take_masked x msk =
     (if rank x = 2 then getitem_cols x msk
      else if rank x = 1 then getitem_mask x msk
      else Inl ValueError)"

definition remove_group :: "'a ndarray \<Rightarrow> label list \<Rightarrow> label set list \<Rightarrow> error + 'a ndarray" where
  "remove_group x remove_label label_sets =
     (let msk = logical_not (subset_mask remove_label label_sets)
      in take_masked x msk)"

definition remove_groups :: "'a ndarray \<Rightarrow> label list list \<Rightarrow> label set list \<Rightarrow> error + 'a ndarray" where
  "remove_groups x remove_labels label_sets =
     (let msk = fold (\<lambda>lab msk. logical_or msk (logical_not (subset_mask lab label_sets)))
                   remove_labels (zeros_like label_sets)
      in take_masked x msk)"

definition select_group :: "'a ndarray \<Rightarrow> label list \<Rightarrow> label set list \<Rightarrow> error + 'a ndarray" where
  "select_group x select_label label_sets =
     (let msk = subset_mask select_label label_sets
      in take_masked x msk)"

definition select_groups :: "'a ndarray \<Rightarrow> label list list \<Rightarrow> label set list \<Rightarrow> error + 'a ndarray" where
  "select_groups x select_labels label_sets =
     (let msk = fold (\<lambda>lab msk. logical_or msk (subset_mask lab label_sets))
                   select_labels (zeros_like label_sets)
      in take_masked x msk)"

text \<open>
  The columns of an array at a set of column positions, in their original order. This is
  the vocabulary in which the results of the operations are described.
\<close>

fun columns_at :: "nat set \<Rightarrow> 'a ndarray \<Rightarrow> 'a ndarray" where
  "columns_at A (Arr0 v) = Arr0 v"
| "columns_at A (Arr1 xs) = Arr1 (nths xs A)"
| "columns_at A (Arr2 n rows) = Arr2 (length (nths [0..<n] A)) (map (\<lambda>r. nths r A) rows)"

text \<open>
  The reading of \<^verbatim>\<open>remove_groups\<close> under which a column is dropped exactly when it
  fails to match at least one of the labels, written down for comparison with the code.
\<close>

definition spec_remove_groups :: "'a ndarray \<Rightarrow> label list list \<Rightarrow> label set list \<Rightarrow> error + 'a ndarray" where
  "spec_remove_groups x remove_labels label_sets =
     take_masked x (map (\<lambda>s. \<not> list_ex (\<lambda>lab. \<not> set lab \<subseteq> s) remove_labels) label_sets)"

text \<open>A two-subject matrix with three columns and its label sets, used in the examples.\<close>

definition ex_matrix :: "int ndarray" where
  "ex_matrix = Arr2 3 [[1, 2, 3], [4, 5, 6]]"

definition ex_label_sets :: "label set list" where
  "ex_label_sets = [{Str ''FA'', Str ''A''}, {Str ''FA'', Str ''B''}, {Str ''MD'', Str ''A''}]"


section \<open>Column keys and label sets\<close>

text \<open>
  A pandas MultiIndex as pandas stores it: the names of the levels, the values of each
  level, and for each level the code (position in the level) of every column.
\<close>

record multiindex =
  names :: "string list"
  levels :: "label list list"
  codes :: "nat list list"

definition n_keys :: "multiindex \<Rightarrow> nat" where
  "n_keys c = (case codes c of [] \<Rightarrow> 0 | cs # _ \<Rightarrow> length cs)"

text \<open>
  What pandas maintains of a MultiIndex: one name, one level and one code array per
  level, code arrays of one length, every code a position of its level, and no value
  twice in a level.
\<close>

definition wf_multiindex :: "multiindex \<Rightarrow> bool" where
  "wf_multiindex c =
     (length (names c) = length (levels c) \<and> length (codes c) = length (levels c)
      \<and> list_all (\<lambda>(lv, cs). length cs = n_keys c \<and> list_all (\<lambda>k. k < length lv) cs)
           (zip (levels c) (codes c))
      \<and> list_all distinct (levels c))"

text \<open>\<^verbatim>\<open>columns.to_numpy()\<close>: the tuple of level values of every column, in column order.\<close>

definition to_numpy :: "multiindex \<Rightarrow> label list list" where
  "to_numpy c = map (\<lambda>i. map (\<lambda>(lv, cs). lv ! (cs ! i)) (zip (levels c) (codes c))) [0..<n_keys c]"

text \<open>\<^verbatim>\<open>list.index\<close>: the first position of a value, ValueError when it is absent.\<close>

fun list_index :: "'a list \<Rightarrow> 'a \<Rightarrow> error + nat" where
  "list_index [] x = Inl ValueError"
| "list_index (y # ys) x =
     (if y = x then Inr 0
      else case list_index ys x of Inl e \<Rightarrow> Inl e | Inr i \<Rightarrow> Inr (Suc i))"

text \<open>
  \<^verbatim>\<open>str.replace(old, new)\<close>: every occurrence of \<open>old\<close>, found from the left and not
  overlapping, is replaced. With an empty \<open>old\<close> Python puts \<open>new\<close> around every
  character.
\<close>

function str_replace :: "string \<Rightarrow> string \<Rightarrow> string \<Rightarrow> string" where
  "str_replace old new [] = []"
| "str_replace old new (c # cs) =
     (if old \<noteq> [] \<and> take (length old) (c # cs) = old
      then new @ str_replace old new (drop (length old) (c # cs))
      else c # str_replace old new cs)"
  by pat_completeness auto
termination
  by (relation "measure (\<lambda>(old, new, s). length s)") (auto simp: neq_Nil_conv)

definition py_replace :: "string \<Rightarrow> string \<Rightarrow> string \<Rightarrow> string" where
  "py_replace s old new =
     (if old = [] then new @ concat (map (\<lambda>c. c # new) s) else str_replace old new s)"

text \<open>
  \<^verbatim>\<open>tract.replace("Left ", "").replace("Right ", "")\<close>. An integer level value has no
  \<^verbatim>\<open>replace\<close> method.
\<close>

fun symmetrized :: "label \<Rightarrow> error + label" where
  "symmetrized (Str tract) = Inr (Str (py_replace (py_replace tract ''Left '' '''') ''Right '' ''''))"
| "symmetrized (Num n) = Inl AttributeError"

fun sequence_err :: "(error + 'a) list \<Rightarrow> error + 'a list" where
  "sequence_err [] = Inr []"
| "sequence_err (r # rs) =
     (case r of Inl e \<Rightarrow> Inl e
      | Inr v \<Rightarrow> (case sequence_err rs of Inl e \<Rightarrow> Inl e | Inr vs \<Rightarrow> Inr (v # vs)))"

text \<open>Python's \<^verbatim>\<open>str\<close> of an integer.\<close>

fun str_of_nat :: "nat \<Rightarrow> string" where
  "str_of_nat n =
     (if n < 10 then [''0123456789'' ! n]
      else str_of_nat (n div 10) @ [''0123456789'' ! (n mod 10)])"

definition str_of_int :: "int \<Rightarrow> string" where
  "str_of_int i = (if i < 0 then CHR ''-'' # str_of_nat (nat (- i)) else str_of_nat (nat i))"

text \<open>
  \<^verbatim>\<open>np.array\<close> of a list of equally long tuples is a rank-2 array of one element type.
  When a string occurs among the values, numpy takes a unicode type for the whole array
  and every integer becomes its decimal string; without a string the values stay as
  they are.
\<close>

fun as_unicode :: "label \<Rightarrow> label" where
  "as_unicode (Str s) = Str s"
| "as_unicode (Num n) = Str (str_of_int n)"

fun is_str :: "label \<Rightarrow> bool" where
  "is_str (Str s) = True"
| "is_str (Num n) = False"

definition np_array :: "label list list \<Rightarrow> label list list" where
  "np_array tuples =
     (if list_ex (list_ex is_str) tuples then map (map as_unicode) tuples else tuples)"

text \<open>
  \<^verbatim>\<open>multicol2sets\<close>. With tract symmetry the dictionary \<^verbatim>\<open>bilateral_symmetry\<close> is built
  over the tract level, each key tuple is extended by the symmetrized name of its tract,
  and the extended tuples pass through \<^verbatim>\<open>np.array\<close> before they become sets. Without
  it the tuples of \<^verbatim>\<open>to_numpy\<close> become sets as they are.
\<close>

definition multicol2sets :: "multiindex \<Rightarrow> bool \<Rightarrow> error + label set list" where
  "multicol2sets columns tract_symmetry =
     (let col_vals = to_numpy columns in
      if tract_symmetry then
        (case list_index (names columns) ''tractID'' of
           Inl e \<Rightarrow> Inl e
         | Inr tract_idx \<Rightarrow>
            (case sequence_err (map (\<lambda>tract. case symmetrized tract of
                                       Inl e \<Rightarrow> Inl e | Inr s \<Rightarrow> Inr (tract, s))
                                  (levels columns ! tract_idx)) of
               Inl e \<Rightarrow> Inl e
             | Inr bilateral_symmetry \<Rightarrow>
                (case sequence_err (map (\<lambda>x. case map_of bilateral_symmetry (x ! tract_idx) of
                                            None \<Rightarrow> Inl KeyError | Some s \<Rightarrow> Inr (x @ [s]))
                                      col_vals) of
                   Inl e \<Rightarrow> Inl e
                 | Inr extended \<Rightarrow> Inr (map set (np_array extended)))))
      else Inr (map set col_vals))"

text \<open>The column index with the single key \<^verbatim>\<open>("FA", "Left Cingulum", 5)\<close>.\<close>

definition ex_cingulum :: multiindex where
  "ex_cingulum = \<lparr> names = [''metric'', ''tractID'', ''nodeID''],
                   levels = [[Str ''FA''], [Str ''Left Cingulum''], [Num 5]],
                   codes = [[0], [0], [0]] \<rparr>"

section \<open>Shuffling a group\<close>

text \<open>
  The global generator of \<^verbatim>\<open>np.random\<close> is a state of type \<open>'s\<close>. Its algorithm is not
  part of the program; it enters as two functions: \<^verbatim>\<open>seed\<close>, the state a seed
  determines, and the draw of an integer in \<open>[0, i]\<close>, which also returns the next
  state.
\<close>

record 's generator =
  seed_state :: "nat \<Rightarrow> 's"
  random_interval :: "'s \<Rightarrow> nat \<Rightarrow> nat \<times> 's"

text \<open>
  \<^verbatim>\<open>np.random.shuffle\<close> on a rank-1 array of length \<open>n\<close>: for \<open>i\<close> from \<open>n - 1\<close> down
  to 1, draw \<open>j\<close> in \<open>[0, i]\<close> and exchange the entries at \<open>i\<close> and \<open>j\<close>.
\<close>

fun shuffle_from :: "'s generator \<Rightarrow> nat \<Rightarrow> 'a list \<Rightarrow> 's \<Rightarrow> 'a list \<times> 's" where
  "shuffle_from G 0 xs st = (xs, st)"
| "shuffle_from G (Suc i) xs st =
     (case random_interval G st (Suc i) of
        (j, st') \<Rightarrow> shuffle_from G i (xs[Suc i := xs ! j, j := xs ! Suc i]) st')"

definition shuffle :: "'s generator \<Rightarrow> 'a list \<Rightarrow> 's \<Rightarrow> 'a list \<times> 's" where
  "shuffle G xs st = shuffle_from G (length xs - 1) xs st"

text \<open>\<^verbatim>\<open>out[:, mask] = values\<close> on one row: the masked positions take the values in order.\<close>

fun scatter :: "bool list \<Rightarrow> 'a list \<Rightarrow> 'a list \<Rightarrow> 'a list" where
  "scatter (b # bs) (x # xs) vs =
     (if b then (case vs of [] \<Rightarrow> x # scatter bs xs [] | v # vs' \<Rightarrow> v # scatter bs xs vs')
      else x # scatter bs xs vs)"
| "scatter bs xs vs = xs"

text \<open>
  \<^verbatim>\<open>shuffle_group\<close>, with the global generator state passed in and returned. The seed of
  \<^verbatim>\<open>np.random.seed\<close> must lie in \<open>[0, 2^32 - 1]\<close>, else it raises ValueError before
  it touches the state. \<^verbatim>\<open>out[:, mask]\<close> needs an array of rank 2.
\<close>

fun shuffle_group ::
  "'s generator \<Rightarrow> 'a ndarray \<Rightarrow> label list \<Rightarrow> label set list \<Rightarrow> int option \<Rightarrow> 's
    \<Rightarrow> (error + 'a ndarray) \<times> 's" where
  "shuffle_group G (Arr2 n rows) lab label_sets random_seed st =
     (let msk = subset_mask lab label_sets in
      if length msk \<noteq> n then (Inl IndexError, st)
      else
        let k = length (filter id msk);
            section = concat (map (compress msk) rows)
        in (case random_seed of
              None \<Rightarrow>
                (case shuffle G section st of
                   (shuffled, st') \<Rightarrow>
                     (Inr (Arr2 n (map (\<lambda>(i, r). scatter msk r (take k (drop (i * k) shuffled)))
                                     (zip [0..<length rows] rows))), st'))
            | Some s \<Rightarrow>
                if s < 0 \<or> 2 ^ 32 \<le> s then (Inl ValueError, st)
                else
                  (case shuffle G section (seed_state G (nat s)) of
                     (shuffled, st') \<Rightarrow>
                       (Inr (Arr2 n (map (\<lambda>(i, r). scatter msk r (take k (drop (i * k) shuffled)))
                                       (zip [0..<length rows] rows))), st))))"
| "shuffle_group G x lab label_sets random_seed st = (Inl IndexError, st)"

text \<open>
  A toy generator for the examples: the state is a counter, the draw in \<open>[0, i]\<close> is the
  counter modulo \<open>i + 1\<close>.
\<close>

definition ex_generator :: "nat generator" where
  "ex_generator = \<lparr> seed_state = (\<lambda>s. s), random_interval = (\<lambda>st i. (st mod Suc i, Suc st)) \<rparr>"

section \<open>Coefficients by group\<close>

text \<open>Assignment \<^verbatim>\<open>d[k] = v\<close> in an ordered dictionary: a new key goes to the end.\<close>

fun dict_set :: "('k \<times> 'v) list \<Rightarrow> 'k \<Rightarrow> 'v \<Rightarrow> ('k \<times> 'v) list" where
  "dict_set [] k v = [(k, v)]"
| "dict_set ((k', v') # d) k v = (if k' = k then (k, v) # d else (k', v') # dict_set d k v)"

text \<open>
  \<^verbatim>\<open>any(x != 0)\<close> on the rank-1 array that \<^verbatim>\<open>select_group\<close> returns for a rank-1
  coefficient vector (no other rank reaches it).
\<close>

fun any_nonzero :: "real ndarray \<Rightarrow> bool" where
  "any_nonzero (Arr1 xs) = list_ex (\<lambda>v. v \<noteq> 0) xs"
| "any_nonzero _ = False"

fun metric_loop ::
  "real list \<Rightarrow> label set list \<Rightarrow> bool \<Rightarrow> label \<Rightarrow> label list
    \<Rightarrow> (label \<times> real ndarray) list \<Rightarrow> error + (label \<times> real ndarray) list" where
  "metric_loop beta_hat label_sets drop_zeros tract [] d = Inr d"
| "metric_loop beta_hat label_sets drop_zeros tract (metric # ms) d =
     (case select_group (Arr1 beta_hat) [tract, metric] label_sets of
        Inl e \<Rightarrow> Inl e
      | Inr x \<Rightarrow>
          metric_loop beta_hat label_sets drop_zeros tract ms
            (if \<not> drop_zeros \<or> any_nonzero x then dict_set d metric x else d))"

fun tract_loop ::
  "real list \<Rightarrow> label set list \<Rightarrow> bool \<Rightarrow> multiindex \<Rightarrow> label list
    \<Rightarrow> (label \<times> (label \<times> real ndarray) list) list
    \<Rightarrow> error + (label \<times> (label \<times> real ndarray) list) list" where
  "tract_loop beta_hat label_sets drop_zeros columns [] betas = Inr betas"
| "tract_loop beta_hat label_sets drop_zeros columns (tract # ts) betas =
     (case select_group (Arr1 beta_hat) [tract] label_sets of
        Inl e \<Rightarrow> Inl e
      | Inr all_metrics \<Rightarrow>
          if \<not> drop_zeros \<or> any_nonzero all_metrics then
            (case list_index (names columns) ''metric'' of
               Inl e \<Rightarrow> Inl e
             | Inr metric_idx \<Rightarrow>
                (case metric_loop beta_hat label_sets drop_zeros tract
                        (levels columns ! metric_idx) [] of
                   Inl e \<Rightarrow> Inl e
                 | Inr inner \<Rightarrow>
                     tract_loop beta_hat label_sets drop_zeros columns ts
                       (dict_set betas tract inner)))
          else tract_loop beta_hat label_sets drop_zeros columns ts betas)"

definition beta_hat_by_groups ::
  "real list \<Rightarrow> multiindex \<Rightarrow> bool \<Rightarrow> error + (label \<times> (label \<times> real ndarray) list) list" where
  "beta_hat_by_groups beta_hat columns drop_zeros =
     (case multicol2sets columns False of
        Inl e \<Rightarrow> Inl e
      | Inr label_sets \<Rightarrow>
         (case list_index (names columns) ''tractID'' of
            Inl e \<Rightarrow> Inl e
          | Inr tract_idx \<Rightarrow>
              tract_loop beta_hat label_sets drop_zeros columns (levels columns ! tract_idx) []))"

text \<open>
  Two metrics on two tracts, one node each, and a coefficient vector that is zero on
  every column of the tract \<open>CST_L\<close>.
\<close>

definition ex_columns :: multiindex where
  "ex_columns = \<lparr> names = [''metric'', ''tractID'', ''nodeID''],
                  levels = [[Str ''FA'', Str ''MD''], [Str ''ARC_L'', Str ''CST_L''], [Num 0]],
                  codes = [[0, 0, 1, 1], [0, 1, 0, 1], [0, 0, 0, 0]] \<rparr>"

definition ex_beta :: "real list" where
  "ex_beta = [2, 0, 0, 0]"

section \<open>The feature transformer\<close>

text \<open>
  The input data frame of \<^verbatim>\<open>AFQFeatureTransformer.transform\<close>: the identifier columns
  \<^verbatim>\<open>subjectID\<close>, \<^verbatim>\<open>tractID\<close>, \<^verbatim>\<open>nodeID\<close> and one column of values per metric. A
  value is a real number or missing (\<open>None\<close> stands for NaN); floating-point rounding is
  not modelled.
\<close>

record afq_row =
  subjectID :: string
  tractID :: string
  nodeID :: int
  row_vals :: "real option list"

record afq_frame =
  df_metrics :: "string list"
  df_rows :: "afq_row list"


text \<open>
  \<^verbatim>\<open>df.melt(id_vars=["subjectID", "tractID", "nodeID"], var_name="metric")\<close>: one record
  per row and metric, metric by metric in column order.
\<close>

record measurement =
  m_subject :: string
  m_tract :: string
  m_node :: int
  m_metric :: string
  m_value :: "real option"

definition melt :: "afq_frame \<Rightarrow> measurement list" where
  "melt df =
     concat (map (\<lambda>(k, metric).
                    map (\<lambda>r. \<lparr> m_subject = subjectID r, m_tract = tractID r, m_node = nodeID r,
                               m_metric = metric, m_value = row_vals r ! k \<rparr>) (df_rows df))
                 (enumerate 0 (df_metrics df)))"

text \<open>
  \<^verbatim>\<open>pd.pivot_table(index="nodeID", columns=["metric", "tractID", "subjectID"],
  values="value")\<close>. The records are grouped by node and series, a group is aggregated by
  the mean of its valid values, groups without a valid value are dropped, and the rest is
  laid out with the sorted nodes as rows and the sorted series as columns; a cell without a
  group is missing.
\<close>

type_synonym series = "string \<times> string \<times> string"

definition series_key :: "measurement \<Rightarrow> series" where
  "series_key r = (m_metric r, m_tract r, m_subject r)"

definition cell_values :: "measurement list \<Rightarrow> int \<Rightarrow> series \<Rightarrow> real list" where
  "cell_values long n c =
     List.map_filter (\<lambda>r. if m_node r = n \<and> series_key r = c then m_value r else None) long"

definition mean :: "real list \<Rightarrow> real option" where
  "mean vs = (if vs = [] then None else Some (sum_list vs / real (length vs)))"

record pivot =
  p_index :: "int list"
  p_columns :: "series list"
  p_cells :: "real option list list"

definition pivot_table :: "measurement list \<Rightarrow> pivot" where
  "pivot_table long =
     (let kept = filter (\<lambda>r. m_value r \<noteq> None) long;
          idx = sort (remdups (map m_node kept));
          cols = sort (remdups (map series_key kept))
      in \<lparr> p_index = idx, p_columns = cols,
           p_cells = map (\<lambda>c. map (\<lambda>n. mean (cell_values long n c)) idx) cols \<rparr>)"

text \<open>The cell of a pivoted table at a node and a series, for stating properties.\<close>

definition cell_at :: "pivot \<Rightarrow> int \<Rightarrow> series \<Rightarrow> real option" where
  "cell_at p n c =
     (case (list_index (p_columns p) c, list_index (p_index p) n) of
        (Inr j, Inr i) \<Rightarrow> p_cells p ! j ! i
      | _ \<Rightarrow> None)"

text \<open>
  \<^verbatim>\<open>interpolate(method="linear", limit_direction="both")\<close> on one column. The method
  \<^verbatim>\<open>linear\<close> ignores the index and takes the rows as equally spaced: a missing value
  between two valid ones lies on the line through its nearest valid neighbours by row
  position; before the first and after the last valid value the nearest valid value is
  repeated. Valid values are not touched.
\<close>

definition prev_valid :: "real option list \<Rightarrow> nat \<Rightarrow> nat option" where
  "prev_valid xs i = List.find (\<lambda>j. xs ! j \<noteq> None) (rev [0..<i])"

definition next_valid :: "real option list \<Rightarrow> nat \<Rightarrow> nat option" where
  "next_valid xs i = List.find (\<lambda>j. xs ! j \<noteq> None) [Suc i..<length xs]"

definition fill_linear :: "real option list \<Rightarrow> nat \<Rightarrow> real option" where
  "fill_linear xs i =
     (case xs ! i of
        Some v \<Rightarrow> Some v
      | None \<Rightarrow>
         (case (prev_valid xs i, next_valid xs i) of
            (Some a, Some b) \<Rightarrow>
              (case (xs ! a, xs ! b) of
                 (Some ya, Some yb) \<Rightarrow> Some (ya + (yb - ya) * real (i - a) / real (b - a))
               | _ \<Rightarrow> None)
          | (None, Some b) \<Rightarrow> xs ! b
          | (Some a, None) \<Rightarrow> xs ! a
          | (None, None) \<Rightarrow> None))"

definition interpolate_linear :: "real option list \<Rightarrow> real option list" where
  "interpolate_linear xs = map (fill_linear xs) [0..<length xs]"

text \<open>
  \<^verbatim>\<open>interp1d(x, y, kind="linear", fill_value="extrapolate")\<close> evaluated at one point:
  the segment is found by \<^verbatim>\<open>searchsorted\<close> (the number of knots below the point),
  clipped to \<open>[1, len(x) - 1]\<close>, and the line through its two knots is evaluated, also
  outside the range of the knots.
\<close>

definition interp1d :: "real list \<Rightarrow> real list \<Rightarrow> real \<Rightarrow> real" where
  "interp1d x y x_new =
     (let idx = length (filter (\<lambda>xk. xk < x_new) x);
          hi = min (max idx 1) (length x - 1);
          lo = hi - 1;
          slope = (y ! hi - y ! lo) / (x ! hi - x ! lo)
      in slope * (x_new - x ! lo) + y ! lo)"

text \<open>
  \<^verbatim>\<open>interp_linear_with_extrap\<close> on one column: the knots are the valid entries, at
  their node identifiers. \<^verbatim>\<open>interp1d\<close> is taken to reject fewer than two knots with
  ValueError, as scipy did when the program was written (later versions return NaN there).
\<close>

definition interp_linear_with_extrap :: "int list \<Rightarrow> real option list \<Rightarrow> error + real option list" where
  "interp_linear_with_extrap idx col =
     (let known = List.map_filter (\<lambda>(n, v). case v of None \<Rightarrow> None | Some r \<Rightarrow> Some (n, r))
                    (zip idx col);
          x = map (\<lambda>(n, r). real_of_int n) known;
          y = map (\<lambda>(n, r). r) known
      in if length x < 2 then Inl ValueError
         else Inr (map (\<lambda>n. Some (interp1d x y (real_of_int n))) idx))"

text \<open>The interpolation stage: one of the two policies, column by column.\<close>

definition interpolated :: "pivot \<Rightarrow> bool \<Rightarrow> error + pivot" where
  "interpolated by_node_idx extrapolate =
     (if \<not> extrapolate
      then Inr (by_node_idx \<lparr> p_cells := map interpolate_linear (p_cells by_node_idx) \<rparr>)
      else (case sequence_err (map (interp_linear_with_extrap (p_index by_node_idx))
                                 (p_cells by_node_idx)) of
              Inl e \<Rightarrow> Inl e
            | Inr cells \<Rightarrow> Inr (by_node_idx \<lparr> p_cells := cells \<rparr>)))"

text \<open>
  \<^verbatim>\<open>stack(["subjectID", "tractID", "metric"])\<close>: the long series of the valid cells,
  each under its subject, metric, tract and node.
\<close>

type_synonym entry = "(string \<times> string \<times> string \<times> int) \<times> real"

definition stacked :: "pivot \<Rightarrow> entry list" where
  "stacked p =
     concat (map (\<lambda>((metric, tract, subject), col).
                    List.map_filter (\<lambda>(n, v). case v of None \<Rightarrow> None
                                       | Some r \<Rightarrow> Some ((subject, metric, tract, n), r))
                      (zip (p_index p) col))
                 (zip (p_columns p) (p_cells p)))"

definition e_subject :: "entry \<Rightarrow> string" where
  "e_subject e = (case e of ((s, m, t, n), v) \<Rightarrow> s)"

definition e_metric :: "entry \<Rightarrow> string" where
  "e_metric e = (case e of ((s, m, t, n), v) \<Rightarrow> m)"

definition e_tract :: "entry \<Rightarrow> string" where
  "e_tract e = (case e of ((s, m, t, n), v) \<Rightarrow> t)"

definition e_node :: "entry \<Rightarrow> int" where
  "e_node e = (case e of ((s, m, t, n), v) \<Rightarrow> n)"

definition e_key :: "entry \<Rightarrow> label list" where
  "e_key e = [Str (e_metric e), Str (e_tract e), Num (e_node e)]"

text \<open>
  \<^verbatim>\<open>pd.MultiIndex.from_product(levels, names=...)\<close>: every combination of level values,
  the first level varying slowest.
\<close>

definition from_product :: "label list list \<Rightarrow> string list \<Rightarrow> multiindex" where
  "from_product lvls nms =
     (let tuples = product_lists (map (\<lambda>lv. [0..<length lv]) lvls)
      in \<lparr> names = nms, levels = lvls,
           codes = map (\<lambda>k. map (\<lambda>t. t ! k) tuples) [0..<length lvls] \<rparr>)"

text \<open>
  \<^verbatim>\<open>features.loc[:, new_columns]\<close> asks for labels that may not be columns of the
  unstacked frame. What pandas does then depends on its version and is a parameter:
  versions before 1.0 insert a column of missing values (with a warning), later versions
  raise KeyError.
\<close>

datatype loc_policy = Reindex | Raise

text \<open>The median of pandas, which skips missing values; of no value it is missing.\<close>

definition median :: "real list \<Rightarrow> real option" where
  "median vs =
     (if vs = [] then None
      else let s = sort vs; n = length s
           in Some (if odd n then s ! (n div 2) else (s ! (n div 2 - 1) + s ! (n div 2)) / 2))"

definition fillna :: "real option list list \<Rightarrow> real option list \<Rightarrow> real option list list" where
  "fillna vals fill =
     map (\<lambda>row. map (\<lambda>(v, f). case v of None \<Rightarrow> f | Some r \<Rightarrow> Some r) (zip row fill)) vals"

text \<open>
  The bundle group membership: the code of a column is the code of its metric times the
  number of tracts plus the code of its tract; there is one group per code that occurs
  (\<^verbatim>\<open>np.unique\<close>, sorted), holding the positions of the columns with that code
  (\<^verbatim>\<open>np.where\<close>).
\<close>

definition bundle_group_membership :: "multiindex \<Rightarrow> error + nat list" where
  "bundle_group_membership columns =
     (case list_index (names columns) ''metric'' of
        Inl e \<Rightarrow> Inl e
      | Inr metric_level \<Rightarrow>
         (case list_index (names columns) ''tractID'' of
            Inl e \<Rightarrow> Inl e
          | Inr tract_level \<Rightarrow>
              (let n_tracts = length (levels columns ! tract_level)
               in Inr (map2 (\<lambda>m t. m * n_tracts + t)
                         (codes columns ! metric_level) (codes columns ! tract_level)))))"

definition groups_of :: "nat list \<Rightarrow> nat list list" where
  "groups_of membership =
     map (\<lambda>gid. filter (\<lambda>j. membership ! j = gid) [0..<length membership])
       (sort (remdups membership))"

text \<open>
  \<^verbatim>\<open>unstack(["metric", "tractID", "nodeID"])\<close>: the rows are the sorted subjects, the
  column levels are the sorted metrics, tracts and nodes of the stacked series, and the
  value of a subject under a column key is the stacked value, missing when there is none.
\<close>

definition unstacked_index :: "entry list \<Rightarrow> string list" where
  "unstacked_index entries = sort (remdups (map e_subject entries))"

definition unstacked_levels :: "entry list \<Rightarrow> label list list" where
  "unstacked_levels entries =
     [map Str (sort (remdups (map e_metric entries))),
      map Str (sort (remdups (map e_tract entries))),
      map Num (sort (remdups (map e_node entries)))]"

definition value_at :: "entry list \<Rightarrow> string \<Rightarrow> label list \<Rightarrow> real option" where
  "value_at entries s k = map_of (map (\<lambda>e. ((e_subject e, e_key e), snd e)) entries) (s, k)"

definition column_medians :: "real option list list \<Rightarrow> nat \<Rightarrow> real option list" where
  "column_medians vals n = map (\<lambda>j. median (List.map_filter (\<lambda>row. row ! j) vals)) [0..<n]"

text \<open>
  \<^verbatim>\<open>transform\<close>. A table without any valid value pivots to an empty frame, which has no
  column levels to stack; pandas raises KeyError there.
\<close>

definition transform ::
  "loc_policy \<Rightarrow> afq_frame \<Rightarrow> bool \<Rightarrow> bool
    \<Rightarrow> error + (real option ndarray \<times> nat list list \<times> multiindex \<times> nat option)" where
  "transform policy df extrapolate add_bias_feature =
     (let by_node_idx = pivot_table (melt df) in
      if p_columns by_node_idx = [] then Inl KeyError
      else
      (case interpolated by_node_idx extrapolate of
         Inl e \<Rightarrow> Inl e
       | Inr interp \<Rightarrow>
          (let entries = stacked interp;
               new_columns = from_product (unstacked_levels entries)
                               [''metric'', ''tractID'', ''nodeID''];
               keys = to_numpy new_columns
           in if policy = Raise \<and> \<not> list_all (\<lambda>k. k \<in> set (map e_key entries)) keys
              then Inl KeyError
              else
               (let vals = map (\<lambda>s. map (value_at entries s) keys) (unstacked_index entries);
                    filled = fillna vals (column_medians vals (length keys))
                in (case bundle_group_membership new_columns of
                      Inl e \<Rightarrow> Inl e
                    | Inr membership \<Rightarrow>
                        (let groups = groups_of membership in
                         if add_bias_feature
                         then Inr (Arr2 (length keys + 1) (map (\<lambda>row. row @ [Some 1]) filled),
                                   groups, new_columns, Some (length keys))
                         else Inr (Arr2 (length keys) filled, groups, new_columns, None)))))))"

text \<open>
  Example tables. \<open>ex_ragged\<close>: one subject and one metric, tract \<open>A\<close> sampled at the
  nodes 0 and 1, tract \<open>B\<close> at node 0 only, no value missing. \<open>ex_sparse\<close>: one subject,
  two metrics and two tracts at one node, where \<open>FA\<close> is missing on tract \<open>B\<close> and
  \<open>MD\<close> on tract \<open>A\<close>. \<open>ex_single\<close>: one complete record. \<open>ex_grid\<close>: two subjects,
  one metric, two tracts at two nodes, complete.
\<close>

definition ex_ragged :: afq_frame where
  "ex_ragged = \<lparr> df_metrics = [''FA''],
      df_rows = [\<lparr> subjectID = ''s1'', tractID = ''A'', nodeID = 0, row_vals = [Some 1] \<rparr>,
                 \<lparr> subjectID = ''s1'', tractID = ''A'', nodeID = 1, row_vals = [Some 2] \<rparr>,
                 \<lparr> subjectID = ''s1'', tractID = ''B'', nodeID = 0, row_vals = [Some 3] \<rparr>] \<rparr>"

definition ex_sparse :: afq_frame where
  "ex_sparse = \<lparr> df_metrics = [''FA'', ''MD''],
      df_rows = [\<lparr> subjectID = ''s1'', tractID = ''A'', nodeID = 0, row_vals = [Some 1, None] \<rparr>,
                 \<lparr> subjectID = ''s1'', tractID = ''B'', nodeID = 0, row_vals = [None, Some 2] \<rparr>] \<rparr>"

definition ex_single :: afq_frame where
  "ex_single = \<lparr> df_metrics = [''FA''],
      df_rows = [\<lparr> subjectID = ''s1'', tractID = ''A'', nodeID = 0, row_vals = [Some 1] \<rparr>] \<rparr>"

definition ex_grid :: afq_frame where
  "ex_grid = \<lparr> df_metrics = [''FA''],
      df_rows = [\<lparr> subjectID = ''s1'', tractID = ''A'', nodeID = 0, row_vals = [Some 1] \<rparr>,
                 \<lparr> subjectID = ''s1'', tractID = ''A'', nodeID = 1, row_vals = [Some 2] \<rparr>,
                 \<lparr> subjectID = ''s1'', tractID = ''B'', nodeID = 0, row_vals = [Some 3] \<rparr>,
                 \<lparr> subjectID = ''s1'', tractID = ''B'', nodeID = 1, row_vals = [Some 4] \<rparr>,
                 \<lparr> subjectID = ''s2'', tractID = ''A'', nodeID = 0, row_vals = [Some 5] \<rparr>,
                 \<lparr> subjectID = ''s2'', tractID = ''A'', nodeID = 1, row_vals = [Some 6] \<rparr>,
                 \<lparr> subjectID = ''s2'', tractID = ''B'', nodeID = 0, row_vals = [Some 7] \<rparr>,
                 \<lparr> subjectID = ''s2'', tractID = ''B'', nodeID = 1, row_vals = [Some 8] \<rparr>] \<rparr>"

text \<open>The code tuples of a product of three levels with the given numbers of values.\<close>

definition code_tuples :: "nat \<Rightarrow> nat \<Rightarrow> nat \<Rightarrow> nat list list" where
  "code_tuples M T N = product_lists [[0..<M], [0..<T], [0..<N]]"

text \<open>
  Quantities of the input table in which the properties are stated: its records with a
  valid value, and the number of distinct (metric, tract, node) triples it holds.
\<close>

definition valid_records :: "afq_frame \<Rightarrow> measurement list" where
  "valid_records df = filter (\<lambda>r. m_value r \<noteq> None) (melt df)"


definition distinct_subjects :: "afq_frame \<Rightarrow> nat" where
  "distinct_subjects df = length (remdups (map m_subject (melt df)))"



definition n_tracts :: "afq_frame \<Rightarrow> nat" where
  "n_tracts df = length (remdups (map m_tract (valid_records df)))"


text \<open>
  The integer code of a column of the feature matrix: the rank of its metric times the
  number of tracts plus the rank of its tract.
\<close>

definition group_code :: "multiindex \<Rightarrow> nat \<Rightarrow> nat" where
  "group_code columns j = codes columns ! 0 ! j * length (levels columns ! 1) + codes columns ! 1 ! j"

text \<open>The column index of the feature matrix built from \<open>ex_grid\<close>.\<close>

definition ex_grid_columns :: multiindex where
  "ex_grid_columns = \<lparr> names = [''metric'', ''tractID'', ''nodeID''],
                       levels = [[Str ''FA''], [Str ''A'', Str ''B''], [Num 0, Num 1]],
                       codes = [[0, 0, 0, 0], [0, 0, 1, 1], [0, 1, 0, 1]] \<rparr>"

section \<open>Properties of the group operations\<close>

lemma compress_nths:
  "length msk = length xs \<Longrightarrow> compress msk xs = nths xs {j. j < length msk \<and> msk ! j}"
proof (induction msk xs rule: list_induct2)
  case Nil
  then show ?case by (simp add: compress_def)
next
  case (Cons b bs x xs)
  have "{j. Suc j \<in> {j. j < length (b # bs) \<and> (b # bs) ! j}} = {j. j < length bs \<and> bs ! j}"
    by auto
  with Cons show ?case
    by (simp add: compress_def nths_Cons)
qed

lemma length_filter_id_nths:
  "length (filter id msk) = length (nths [0..<length msk] {j. j < length msk \<and> msk ! j})"
proof -
  have "length (filter id msk) = length (compress msk [0..<length msk])"
    by (simp add: compress_def) (induction msk rule: rev_induct; simp)
  then show ?thesis by (simp add: compress_nths)
qed

lemma take_masked_columns_at:
  assumes "rank x = 1 \<or> rank x = 2" "wf_ndarray x" "length msk = ncols x"
  shows "take_masked x msk = Inr (columns_at {j. j < ncols x \<and> msk ! j} x)"
proof (cases x)
  case (Arr0 v)
  with assms show ?thesis by simp
next
  case (Arr1 xs)
  with assms show ?thesis by (simp add: take_masked_def compress_nths)
next
  case (Arr2 n rows)
  with assms have len: "length msk = n" and rows: "\<forall>r\<in>set rows. length r = n"
    by (simp_all add: list_all_iff)
  have "map (compress msk) rows = map (\<lambda>r. nths r {j. j < n \<and> msk ! j}) rows"
    using len rows by (simp add: compress_nths)
  moreover have "length (filter id msk) = length (nths [0..<n] {j. j < n \<and> msk ! j})"
    using length_filter_id_nths [of msk] len by simp
  ultimately show ?thesis using Arr2 len by (simp add: take_masked_def)
qed

lemma remove_fold_length:
  "length m = length ls \<Longrightarrow>
   length (fold (\<lambda>lab m. logical_or m (logical_not (subset_mask lab ls))) Ls m) = length ls"
  by (induction Ls arbitrary: m) (simp_all add: logical_or_def logical_not_def subset_mask_def)

lemma remove_fold_nth:
  "length m = length ls \<Longrightarrow> j < length ls \<Longrightarrow>
   fold (\<lambda>lab m. logical_or m (logical_not (subset_mask lab ls))) Ls m ! j
     = (m ! j \<or> (\<exists>L\<in>set Ls. \<not> set L \<subseteq> ls ! j))"
  by (induction Ls arbitrary: m) (auto simp: logical_or_def logical_not_def subset_mask_def)

text \<open>
  Claim C1, as amended. For an array of rank 1 or 2 and a parallel array of label sets,
  \<^verbatim>\<open>remove_groups\<close> keeps exactly the columns whose label set fails to be a superset of at
  least one label of the list, in their original order; the columns that match every
  label are the ones dropped. The mask built by the loop is the mask of the columns kept.
\<close>

theorem remove_groups_keeps_unmatched:
  assumes "rank x = 1 \<or> rank x = 2" and "wf_ndarray x" and "length label_sets = ncols x"
  shows "remove_groups x Ls label_sets =
           Inr (columns_at {j. j < ncols x \<and> (\<exists>L\<in>set Ls. \<not> set L \<subseteq> label_sets ! j)} x)"
proof -
  let ?m = "fold (\<lambda>lab m. logical_or m (logical_not (subset_mask lab label_sets)))
              Ls (zeros_like label_sets)"
  have len: "length ?m = ncols x"
    using remove_fold_length [of "zeros_like label_sets" label_sets Ls] assms(3)
    by (simp add: zeros_like_def)
  have "{j. j < ncols x \<and> ?m ! j} =
        {j. j < ncols x \<and> (\<exists>L\<in>set Ls. \<not> set L \<subseteq> label_sets ! j)}"
    using remove_fold_nth [of "zeros_like label_sets" label_sets _ Ls] assms(3)
    by (auto simp: zeros_like_def)
  with take_masked_columns_at [OF assms(1,2) len] show ?thesis
    by (simp add: remove_groups_def)
qed

lemmas group_defs = remove_groups_def remove_group_def select_group_def select_groups_def
  take_masked_def compress_def zeros_like_def logical_or_def logical_not_def subset_mask_def

theorem remove_groups_keeps_unmatched_witness:
  "(rank ex_matrix = 1 \<or> rank ex_matrix = 2) \<and> wf_ndarray ex_matrix
   \<and> length ex_label_sets = ncols ex_matrix
   \<and> remove_groups ex_matrix [[Str ''FA''], [Str ''A'']] ex_label_sets
       = Inr (Arr2 2 [[2, 3], [5, 6]])"
proof -
  have h1: "rank ex_matrix = 1 \<or> rank ex_matrix = 2" by (simp add: ex_matrix_def)
  have h2: "wf_ndarray ex_matrix" by (simp add: ex_matrix_def)
  have h3: "length ex_label_sets = ncols ex_matrix"
    by (simp add: ex_matrix_def ex_label_sets_def)
  have ev: "remove_groups ex_matrix [[Str ''FA''], [Str ''A'']] ex_label_sets
              = Inr (Arr2 2 [[2, 3], [5, 6]])"
    by (simp add: ex_matrix_def ex_label_sets_def group_defs)
  from remove_groups_keeps_unmatched [OF h1 h2 h3, of "[[Str ''FA''], [Str ''A'']]"]
  have "\<exists>A. remove_groups ex_matrix [[Str ''FA''], [Str ''A'']] ex_label_sets
              = Inr (columns_at A ex_matrix)" by blast
  with h1 h2 h3 ev show ?thesis by blast
qed

text \<open>
  Claim C1 as stated (a column is dropped iff it fails to match some label) is false: with
  the single label \<open>FA\<close> the code drops the column carrying \<open>FA\<close> and keeps the other
  one, where the stated policy keeps the column carrying \<open>FA\<close>.
\<close>

theorem remove_groups_counterexample:
  "remove_groups (Arr1 [10, 20::int]) [[Str ''FA'']] [{Str ''FA''}, {Str ''MD''}] = Inr (Arr1 [20])
   \<and> spec_remove_groups (Arr1 [10, 20::int]) [[Str ''FA'']] [{Str ''FA''}, {Str ''MD''}] = Inr (Arr1 [10])"
  by (simp add: group_defs spec_remove_groups_def)

lemma compress_all_False: "compress (replicate n False) xs = []"
  by (auto simp: compress_def filter_empty_conv dest: set_zip_leftD)

text \<open>
  Claim C10. With an empty list of labels the mask stays all false, so for an array of
  rank 1 or 2 with a parallel array of label sets the result has the rank of the input
  and no column at all.
\<close>

theorem remove_groups_empty_drops_all:
  assumes "rank x = 1 \<or> rank x = 2" and "length label_sets = ncols x"
  shows "\<exists>y. remove_groups x [] label_sets = Inr y \<and> y = columns_at {} x
             \<and> rank y = rank x \<and> ncols y = 0"
proof (cases x)
  case (Arr0 v)
  with assms show ?thesis by simp
next
  case (Arr1 xs)
  with assms show ?thesis
    by (simp add: remove_groups_def take_masked_def zeros_like_def compress_all_False)
next
  case (Arr2 n rows)
  with assms show ?thesis
    by (simp add: remove_groups_def take_masked_def zeros_like_def compress_all_False)
qed

theorem remove_groups_empty_drops_all_witness:
  "(rank ex_matrix = 1 \<or> rank ex_matrix = 2) \<and> length ex_label_sets = ncols ex_matrix
   \<and> remove_groups ex_matrix [] ex_label_sets = Inr (Arr2 0 [[], []])"
proof -
  have h1: "rank ex_matrix = 1 \<or> rank ex_matrix = 2" by (simp add: ex_matrix_def)
  have h2: "length ex_label_sets = ncols ex_matrix"
    by (simp add: ex_matrix_def ex_label_sets_def)
  from remove_groups_empty_drops_all [OF h1 h2]
  have "remove_groups ex_matrix [] ex_label_sets = Inr (columns_at {} ex_matrix)" by blast
  then have "remove_groups ex_matrix [] ex_label_sets = Inr (Arr2 0 [[], []])"
    by (simp add: ex_matrix_def)
  with h1 h2 show ?thesis by blast
qed

text \<open>
  Claim C7. For an array of rank 1 or 2, a label and a parallel array of label sets, the
  columns returned by \<^verbatim>\<open>select_group\<close> and by \<^verbatim>\<open>remove_group\<close> sit at two disjoint
  sets of positions whose union is every column position of the input.
\<close>

theorem select_remove_group_complement:
  assumes "rank x = 1 \<or> rank x = 2" and "wf_ndarray x" and "length label_sets = ncols x"
  shows "\<exists>S R. select_group x L label_sets = Inr (columns_at S x)
             \<and> remove_group x L label_sets = Inr (columns_at R x)
             \<and> S \<inter> R = {} \<and> S \<union> R = {..<ncols x}
             \<and> S = {j. j < ncols x \<and> set L \<subseteq> label_sets ! j}"
proof -
  let ?S = "{j. j < ncols x \<and> set L \<subseteq> label_sets ! j}"
  let ?R = "{j. j < ncols x \<and> \<not> set L \<subseteq> label_sets ! j}"
  have ls: "length (subset_mask L label_sets) = ncols x"
    and ln: "length (logical_not (subset_mask L label_sets)) = ncols x"
    using assms(3) by (simp_all add: subset_mask_def logical_not_def)
  have "{j. j < ncols x \<and> subset_mask L label_sets ! j} = ?S"
    using assms(3) by (auto simp: subset_mask_def)
  with take_masked_columns_at [OF assms(1,2) ls]
  have sel: "select_group x L label_sets = Inr (columns_at ?S x)"
    by (simp add: select_group_def)
  have "{j. j < ncols x \<and> logical_not (subset_mask L label_sets) ! j} = ?R"
    using assms(3) by (auto simp: subset_mask_def logical_not_def)
  with take_masked_columns_at [OF assms(1,2) ln]
  have rem: "remove_group x L label_sets = Inr (columns_at ?R x)"
    by (simp add: remove_group_def)
  have "?S \<inter> ?R = {}" and "?S \<union> ?R = {..<ncols x}" by auto
  with sel rem show ?thesis by blast
qed

theorem select_remove_group_complement_witness:
  "(rank ex_matrix = 1 \<or> rank ex_matrix = 2) \<and> wf_ndarray ex_matrix
   \<and> length ex_label_sets = ncols ex_matrix
   \<and> select_group ex_matrix [Str ''FA''] ex_label_sets = Inr (Arr2 2 [[1, 2], [4, 5]])
   \<and> remove_group ex_matrix [Str ''FA''] ex_label_sets = Inr (Arr2 1 [[3], [6]])
   \<and> (\<exists>S R. select_group ex_matrix [Str ''FA''] ex_label_sets = Inr (columns_at S ex_matrix)
          \<and> remove_group ex_matrix [Str ''FA''] ex_label_sets = Inr (columns_at R ex_matrix)
          \<and> S \<inter> R = {} \<and> S \<union> R = {..<ncols ex_matrix})"
proof -
  have h1: "rank ex_matrix = 1 \<or> rank ex_matrix = 2" by (simp add: ex_matrix_def)
  have h2: "wf_ndarray ex_matrix" by (simp add: ex_matrix_def)
  have h3: "length ex_label_sets = ncols ex_matrix"
    by (simp add: ex_matrix_def ex_label_sets_def)
  have e1: "select_group ex_matrix [Str ''FA''] ex_label_sets = Inr (Arr2 2 [[1, 2], [4, 5]])"
    by (simp add: ex_matrix_def ex_label_sets_def group_defs)
  have e2: "remove_group ex_matrix [Str ''FA''] ex_label_sets = Inr (Arr2 1 [[3], [6]])"
    by (simp add: ex_matrix_def ex_label_sets_def group_defs)
  from select_remove_group_complement [OF h1 h2 h3, of "[Str ''FA'']"]
  have "\<exists>S R. select_group ex_matrix [Str ''FA''] ex_label_sets = Inr (columns_at S ex_matrix)
          \<and> remove_group ex_matrix [Str ''FA''] ex_label_sets = Inr (columns_at R ex_matrix)
          \<and> S \<inter> R = {} \<and> S \<union> R = {..<ncols ex_matrix}" by blast
  with h1 h2 h3 e1 e2 show ?thesis by blast
qed

section \<open>Properties of the label sets\<close>

text \<open>
  Claim C5, evaluated on the code. For the column key \<^verbatim>\<open>("FA", "Left Cingulum", 5)\<close>
  and tract symmetry enabled, the label set holds the metric, the tract, the symmetrized
  tract \<open>Cingulum\<close> and the node as the string \<open>5\<close>: the extended tuples go through
  \<^verbatim>\<open>np.array\<close>, which turns the integer into its decimal string. The integer 5 itself is
  in the set only without tract symmetry, where the tuples are not converted.
\<close>

theorem multicol2sets_cingulum:
  "multicol2sets ex_cingulum True
     = Inr [{Str ''FA'', Str ''Left Cingulum'', Str ''5'', Str ''Cingulum''}]
   \<and> multicol2sets ex_cingulum False = Inr [{Str ''FA'', Str ''Left Cingulum'', Num 5}]"
  by (simp add: multicol2sets_def ex_cingulum_def to_numpy_def n_keys_def np_array_def
      py_replace_def str_of_int_def insert_commute)

section \<open>Properties of the seeded shuffle\<close>

text \<open>
  Claim C4. With a seed, the result of \<^verbatim>\<open>shuffle_group\<close> (the shuffled matrix or the
  error) does not depend on the state of the global generator, the state after the call
  is the state before it, and so a draw made right after the call is the draw that would
  have been made without it.
\<close>

theorem shuffle_group_seeded:
  "fst (shuffle_group G x lab label_sets (Some s) st1)
     = fst (shuffle_group G x lab label_sets (Some s) st2)
   \<and> snd (shuffle_group G x lab label_sets (Some s) st1) = st1
   \<and> random_interval G (snd (shuffle_group G x lab label_sets (Some s) st1)) i
       = random_interval G st1 i"
  by (cases x) (simp_all add: Let_def split: prod.splits)

lemma shuffle_ex_seeded:
  "shuffle_group ex_generator ex_matrix [Str ''FA''] ex_label_sets (Some 5) 0
     = (Inr (Arr2 3 [[4, 5, 3], [1, 2, 6]]), 0)"
  by code_simp

lemma shuffle_ex_unseeded:
  "shuffle_group ex_generator ex_matrix [Str ''FA''] ex_label_sets None 5
     = (Inr (Arr2 3 [[4, 5, 3], [1, 2, 6]]), 8)"
  by code_simp

theorem shuffle_group_seeded_witness:
  "fst (shuffle_group ex_generator ex_matrix [Str ''FA''] ex_label_sets (Some 5) 0)
     = fst (shuffle_group ex_generator ex_matrix [Str ''FA''] ex_label_sets (Some 5) 9)
   \<and> shuffle_group ex_generator ex_matrix [Str ''FA''] ex_label_sets (Some 5) 0
       = (Inr (Arr2 3 [[4, 5, 3], [1, 2, 6]]), 0)
   \<and> shuffle_group ex_generator ex_matrix [Str ''FA''] ex_label_sets None 5
       = (Inr (Arr2 3 [[4, 5, 3], [1, 2, 6]]), 8)"
proof -
  from shuffle_group_seeded [of ex_generator ex_matrix "[Str ''FA'']" ex_label_sets 5 0 9 1]
  have "fst (shuffle_group ex_generator ex_matrix [Str ''FA''] ex_label_sets (Some 5) 0)
     = fst (shuffle_group ex_generator ex_matrix [Str ''FA''] ex_label_sets (Some 5) 9)"
    by blast
  with shuffle_ex_seeded shuffle_ex_unseeded show ?thesis by blast
qed

section \<open>Properties of the coefficients by group\<close>

lemma dict_set_keys: "fst ` set (dict_set d k v) = insert k (fst ` set d)"
  by (induction d k v rule: dict_set.induct) auto

lemma dict_set_entries: "set (dict_set d k v) \<subseteq> insert (k, v) (set d)"
  by (induction d k v rule: dict_set.induct) auto

lemma metric_loop_keys:
  "metric_loop beta ls True t ms d = Inr d' \<Longrightarrow> m \<in> fst ` set d' \<Longrightarrow>
   m \<in> fst ` set d \<or>
   (m \<in> set ms \<and> (\<exists>x. select_group (Arr1 beta) [t, m] ls = Inr x \<and> any_nonzero x))"
proof (induction ms arbitrary: d)
  case Nil
  then show ?case by simp
next
  case (Cons a ms)
  from Cons.prems(1) obtain x where
    sel: "select_group (Arr1 beta) [t, a] ls = Inr x" and
    rest: "metric_loop beta ls True t ms (if any_nonzero x then dict_set d a x else d) = Inr d'"
    by (auto split: sum.splits)
  from Cons.IH [OF rest Cons.prems(2)] sel show ?case
    by (auto simp: dict_set_keys split: if_splits)
qed

lemma tract_loop_entries:
  "tract_loop beta ls True c ts betas = Inr betas' \<Longrightarrow> (t, inner) \<in> set betas' \<Longrightarrow>
   (t, inner) \<in> set betas \<or>
   (t \<in> set ts \<and> (\<exists>x. select_group (Arr1 beta) [t] ls = Inr x \<and> any_nonzero x)
     \<and> (\<exists>mi. list_index (names c) ''metric'' = Inr mi
            \<and> metric_loop beta ls True t (levels c ! mi) [] = Inr inner))"
proof (induction ts arbitrary: betas)
  case Nil
  then show ?case by simp
next
  case (Cons a ts)
  from Cons.prems(1) obtain x where
    sel: "select_group (Arr1 beta) [a] ls = Inr x"
    by (auto split: sum.splits)
  show ?case
  proof (cases "any_nonzero x")
    case False
    with Cons.prems(1) sel
    have "tract_loop beta ls True c ts betas = Inr betas'" by simp
    from Cons.IH [OF this Cons.prems(2)] show ?thesis by auto
  next
    case True
    with Cons.prems(1) sel obtain mi inner' where
      mi: "list_index (names c) ''metric'' = Inr mi" and
      inner: "metric_loop beta ls True a (levels c ! mi) [] = Inr inner'" and
      rest: "tract_loop beta ls True c ts (dict_set betas a inner') = Inr betas'"
      by (auto split: sum.splits)
    from Cons.IH [OF rest Cons.prems(2)] dict_set_entries [of betas a inner'] sel True mi inner
    show ?thesis by auto
  qed
qed

lemma any_nonzero_all_zero: "list_all (\<lambda>v. v = 0) sub \<Longrightarrow> \<not> any_nonzero (Arr1 sub)"
  by (simp add: list_all_iff list_ex_iff)

text \<open>
  Claim C9. When \<^verbatim>\<open>beta_hat_by_groups\<close> returns with \<^verbatim>\<open>drop_zeros\<close> set, a tract
  whose selected coefficients are all zero is not a key of the result, and under a tract
  that is a key, a metric whose selected coefficients are all zero is not a key either.
  The coefficients of a tract, and of a tract and a metric, are what \<^verbatim>\<open>select_group\<close>
  returns for them on the label sets without tract symmetry.
\<close>

theorem beta_hat_by_groups_drops_zero_groups:
  assumes "beta_hat_by_groups beta_hat columns True = Inr betas"
  shows "\<exists>label_sets. multicol2sets columns False = Inr label_sets
     \<and> (\<forall>t sub. select_group (Arr1 beta_hat) [t] label_sets = Inr (Arr1 sub)
            \<and> list_all (\<lambda>v. v = 0) sub \<longrightarrow> t \<notin> fst ` set betas)
     \<and> (\<forall>t inner m sub. (t, inner) \<in> set betas
            \<and> select_group (Arr1 beta_hat) [t, m] label_sets = Inr (Arr1 sub)
            \<and> list_all (\<lambda>v. v = 0) sub \<longrightarrow> m \<notin> fst ` set inner)"
proof -
  from assms obtain ls ti where
    ls: "multicol2sets columns False = Inr ls" and
    loop: "tract_loop beta_hat ls True columns (levels columns ! ti) [] = Inr betas"
    by (auto simp: beta_hat_by_groups_def split: sum.splits)
  have tracts: "t \<notin> fst ` set betas"
    if "select_group (Arr1 beta_hat) [t] ls = Inr (Arr1 sub)" "list_all (\<lambda>v. v = 0) sub"
    for t sub
  proof
    assume "t \<in> fst ` set betas"
    then obtain inner where "(t, inner) \<in> set betas" by auto
    from tract_loop_entries [OF loop this] that any_nonzero_all_zero [OF that(2)]
    show False by auto
  qed
  have metrics: "m \<notin> fst ` set inner"
    if "(t, inner) \<in> set betas" "select_group (Arr1 beta_hat) [t, m] ls = Inr (Arr1 sub)"
      "list_all (\<lambda>v. v = 0) sub"
    for t inner m sub
  proof
    assume m: "m \<in> fst ` set inner"
    from tract_loop_entries [OF loop that(1)] obtain mi where
      "metric_loop beta_hat ls True t (levels columns ! mi) [] = Inr inner" by auto
    from metric_loop_keys [OF this m] that(2) any_nonzero_all_zero [OF that(3)]
    show False by auto
  qed
  from ls tracts metrics show ?thesis by blast
qed

lemma beta_ex_eval:
  "beta_hat_by_groups ex_beta ex_columns True = Inr [(Str ''ARC_L'', [(Str ''FA'', Arr1 [2])])]"
  by (simp add: beta_hat_by_groups_def multicol2sets_def to_numpy_def n_keys_def ex_columns_def
      ex_beta_def select_group_def take_masked_def subset_mask_def compress_def upt_rec)

lemma beta_ex_sets:
  "multicol2sets ex_columns False
     = Inr [{Str ''FA'', Str ''ARC_L'', Num 0}, {Str ''FA'', Str ''CST_L'', Num 0},
            {Str ''MD'', Str ''ARC_L'', Num 0}, {Str ''MD'', Str ''CST_L'', Num 0}]"
  by (simp add: multicol2sets_def to_numpy_def n_keys_def ex_columns_def upt_rec insert_commute)

theorem beta_hat_by_groups_drops_zero_groups_witness:
  "beta_hat_by_groups ex_beta ex_columns True = Inr [(Str ''ARC_L'', [(Str ''FA'', Arr1 [2])])]
   \<and> Str ''CST_L'' \<notin> fst ` set [(Str ''ARC_L'', [(Str ''FA'', Arr1 [2::real])])]
   \<and> Str ''MD'' \<notin> fst ` set [(Str ''FA'', Arr1 [2::real])]"
proof -
  let ?sets = "[{Str ''FA'', Str ''ARC_L'', Num 0}, {Str ''FA'', Str ''CST_L'', Num 0},
                {Str ''MD'', Str ''ARC_L'', Num 0}, {Str ''MD'', Str ''CST_L'', Num 0}]"
  let ?betas = "[(Str ''ARC_L'', [(Str ''FA'', Arr1 [2::real])])]"
  from beta_hat_by_groups_drops_zero_groups [OF beta_ex_eval] beta_ex_sets
  have tracts: "\<And>t sub. select_group (Arr1 ex_beta) [t] ?sets = Inr (Arr1 sub)
                  \<Longrightarrow> list_all (\<lambda>v. v = 0) sub \<Longrightarrow> t \<notin> fst ` set ?betas"
    and metrics: "\<And>t inner m sub. (t, inner) \<in> set ?betas
                  \<Longrightarrow> select_group (Arr1 ex_beta) [t, m] ?sets = Inr (Arr1 sub)
                  \<Longrightarrow> list_all (\<lambda>v. v = 0) sub \<Longrightarrow> m \<notin> fst ` set inner"
    by auto
  have "select_group (Arr1 ex_beta) [Str ''CST_L''] ?sets = Inr (Arr1 [0, 0])"
    by (simp add: ex_beta_def select_group_def take_masked_def subset_mask_def compress_def)
  from tracts [OF this] have a: "Str ''CST_L'' \<notin> fst ` set ?betas" by simp
  have "select_group (Arr1 ex_beta) [Str ''ARC_L'', Str ''MD''] ?sets = Inr (Arr1 [0])"
    by (simp add: ex_beta_def select_group_def take_masked_def subset_mask_def compress_def)
  from metrics [OF _ this, of "[(Str ''FA'', Arr1 [2])]"]
  have b: "Str ''MD'' \<notin> fst ` set [(Str ''FA'', Arr1 [2::real])]" by simp
  from beta_ex_eval a b show ?thesis by blast
qed

section \<open>Properties of the feature transformer\<close>

lemma length_concat_blocks:
  assumes "\<And>a. a < M \<Longrightarrow> length (f a) = L"
  shows "length (concat (map f [0..<M])) = M * L"
  using assms by (induction M) simp_all

lemma nth_concat_blocks:
  assumes "\<And>a. a < M \<Longrightarrow> length (f a) = L" and "j < M * L"
  shows "concat (map f [0..<M]) ! j = f (j div L) ! (j mod L)"
  using assms
proof (induction M arbitrary: j)
  case 0
  then show ?case by simp
next
  case (Suc M)
  have len: "length (concat (map f [0..<M])) = M * L"
    using Suc.prems(1) by (intro length_concat_blocks) simp
  show ?case
  proof (cases "j < M * L")
    case True
    with Suc.IH [of j] Suc.prems(1) len show ?thesis by (simp add: nth_append)
  next
    case False
    then have ge: "M * L \<le> j" by simp
    from Suc.prems(2) have lt: "j < M * L + L" by simp
    from ge lt have L0: "0 < L" by (cases L) auto
    have d: "j div L = M"
    proof -
      have "M \<le> j div L" using ge L0 by (simp add: less_eq_div_iff_mult_less_eq)
      moreover have "j div L < Suc M" using lt L0 by (simp add: div_less_iff_less_mult)
      ultimately show ?thesis by simp
    qed
    have m: "j mod L = j - M * L"
      using d by (metis add_diff_cancel_left' mult.commute mult_div_mod_eq)
    from False len d m show ?thesis by (simp add: nth_append)
  qed
qed

lemma product_lists_three:
  "product_lists [as, bs, cs] = concat (map (\<lambda>a. concat (map (\<lambda>b. map (\<lambda>c. [a, b, c]) cs) bs)) as)"
  by (simp add: comp_def map_concat)

lemma length_code_tuples: "length (code_tuples M T N) = M * T * N"
  by (simp only: code_tuples_def length_product_lists) simp

lemma nth_code_tuples:
  assumes "j < M * T * N"
  shows "code_tuples M T N ! j = [j div (T * N), j div N mod T, j mod N]"
proof -
  let ?inner = "\<lambda>a. concat (map (\<lambda>b. map (\<lambda>c. [a, b, c]) [0..<N]) [0..<T])"
  have leninner: "\<And>a. length (?inner a) = T * N"
    by (rule length_concat_blocks) simp
  have N0: "0 < N" using assms by (cases N) auto
  have j': "j mod (T * N) < T * N"
    using assms by (cases "T * N = 0") auto
  have "code_tuples M T N ! j = ?inner (j div (T * N)) ! (j mod (T * N))"
    unfolding code_tuples_def product_lists_three
    using nth_concat_blocks [of M ?inner "T * N" j] leninner assms
    by (simp add: mult.assoc)
  also have "\<dots> = map (\<lambda>c. [j div (T * N), j mod (T * N) div N, c]) [0..<N] ! (j mod (T * N) mod N)"
    using nth_concat_blocks [of T "\<lambda>b. map (\<lambda>c. [j div (T * N), b, c]) [0..<N]" N "j mod (T * N)"] j'
    by simp
  also have "\<dots> = [j div (T * N), j mod (T * N) div N, j mod (T * N) mod N]"
    using N0 by simp
  also have "j mod (T * N) div N = j div N mod T"
    using N0 by (simp add: mod_mult2_eq mult.commute)
  also have "j mod (T * N) mod N = j mod N"
    by (simp add: mod_mult2_eq mult.commute)
  finally show ?thesis .
qed

lemma from_product_three:
  "from_product [A, B, C] nms =
     \<lparr> names = nms, levels = [A, B, C],
       codes = [map (\<lambda>t. t ! 0) (code_tuples (length A) (length B) (length C)),
                map (\<lambda>t. t ! 1) (code_tuples (length A) (length B) (length C)),
                map (\<lambda>t. t ! 2) (code_tuples (length A) (length B) (length C))] \<rparr>"
  by (simp add: from_product_def code_tuples_def Let_def upt_rec numeral_eq_Suc del: product_lists.simps)

lemma n_keys_from_product_three:
  "n_keys (from_product [A, B, C] nms) = length A * length B * length C"
  by (simp add: from_product_three n_keys_def length_code_tuples)

lemma to_numpy_from_product_three:
  assumes "j < length A * length B * length C"
  shows "to_numpy (from_product [A, B, C] nms) ! j =
           [A ! (j div (length B * length C)), B ! (j div length C mod length B),
            C ! (j mod length C)]"
  using assms
  by (simp add: to_numpy_def n_keys_from_product_three)
     (simp add: from_product_three length_code_tuples nth_code_tuples)

lemma length_to_numpy: "length (to_numpy c) = n_keys c"
  by (simp add: to_numpy_def)

lemma membership_from_product_three:
  "bundle_group_membership (from_product [A, B, C] [''metric'', ''tractID'', ''nodeID''])
     = Inr (map (\<lambda>j. j div length C) [0..<length A * length B * length C])"
proof -
  let ?M = "length A" and ?T = "length B" and ?N = "length C"
  let ?tuples = "code_tuples ?M ?T ?N"
  have "map2 (\<lambda>m t. m * ?T + t) (map (\<lambda>t. t ! 0) ?tuples) (map (\<lambda>t. t ! 1) ?tuples)
          = map (\<lambda>j. j div ?N) [0..<?M * ?T * ?N]"
  proof (rule nth_equalityI)
    show "length (map2 (\<lambda>m t. m * ?T + t) (map (\<lambda>t. t ! 0) ?tuples) (map (\<lambda>t. t ! 1) ?tuples))
            = length (map (\<lambda>j. j div ?N) [0..<?M * ?T * ?N])"
      by (simp add: length_code_tuples)
  next
    fix j
    assume "j < length (map2 (\<lambda>m t. m * ?T + t) (map (\<lambda>t. t ! 0) ?tuples) (map (\<lambda>t. t ! 1) ?tuples))"
    then have j: "j < ?M * ?T * ?N" by (simp add: length_code_tuples)
    have "j div (?T * ?N) * ?T + j div ?N mod ?T = j div ?N"
      by (metis div_mult2_eq mult.commute div_mult_mod_eq)
    with j show "map2 (\<lambda>m t. m * ?T + t) (map (\<lambda>t. t ! 0) ?tuples) (map (\<lambda>t. t ! 1) ?tuples) ! j
            = map (\<lambda>j. j div ?N) [0..<?M * ?T * ?N] ! j"
      by (simp add: length_code_tuples nth_code_tuples)
  qed
  then show ?thesis
    by (simp add: bundle_group_membership_def from_product_three)
qed

lemma filter_div_block:
  assumes "0 < N" "g < G"
  shows "filter (\<lambda>j. j div N = g) [0..<G * N] = [g * N..<g * N + N]"
proof (rule sorted_distinct_set_unique)
  show "sorted (filter (\<lambda>j. j div N = g) [0..<G * N])" by (simp add: sorted_wrt_filter)
  show "sorted [g * N..<g * N + N]" by simp
  show "distinct (filter (\<lambda>j. j div N = g) [0..<G * N])" by simp
  show "distinct [g * N..<g * N + N]" by simp
  have "(g + 1) * N \<le> G * N" using assms(2) by (intro mult_le_mono1) simp
  then have le: "g * N + N \<le> G * N" by simp
  show "set (filter (\<lambda>j. j div N = g) [0..<G * N]) = set [g * N..<g * N + N]"
  proof (intro equalityI subsetI)
    fix j assume "j \<in> set (filter (\<lambda>j. j div N = g) [0..<G * N])"
    then have "j div N = g" by simp
    with assms(1) have "g * N \<le> j" "j < g * N + N"
      by (metis div_mult_mod_eq le_add1 mult.commute,
          metis add.commute div_mult_mod_eq mod_less_divisor mult.commute nat_add_left_cancel_less)
    then show "j \<in> set [g * N..<g * N + N]" by simp
  next
    fix j assume "j \<in> set [g * N..<g * N + N]"
    then have a: "g * N \<le> j" and b: "j < g * N + N" by simp_all
    from a assms(1) have "g \<le> j div N" by (simp add: less_eq_div_iff_mult_less_eq)
    moreover from b assms(1) have "j div N < Suc g" by (simp add: div_less_iff_less_mult)
    ultimately have "j div N = g" by simp
    with b le show "j \<in> set (filter (\<lambda>j. j div N = g) [0..<G * N])" by simp
  qed
qed

lemma remdups_div_blocks:
  assumes "0 < N"
  shows "sort (remdups (map (\<lambda>j. j div N) [0..<G * N])) = [0..<G]"
proof (rule sorted_distinct_set_unique)
  show "sorted (sort (remdups (map (\<lambda>j. j div N) [0..<G * N])))" by simp
  show "distinct (sort (remdups (map (\<lambda>j. j div N) [0..<G * N])))" by simp
  show "sorted [0..<G]" "distinct [0..<G]" by simp_all
  show "set (sort (remdups (map (\<lambda>j. j div N) [0..<G * N]))) = set [0..<G]"
  proof (intro equalityI subsetI)
    fix g assume "g \<in> set (sort (remdups (map (\<lambda>j. j div N) [0..<G * N])))"
    then obtain j where "j < G * N" "g = j div N" by auto
    with assms show "g \<in> set [0..<G]" by (simp add: div_less_iff_less_mult)
  next
    fix g assume "g \<in> set [0..<G]"
    then have g: "g < G" by simp
    then have "g * N < G * N" using assms by simp
    moreover have "g * N div N = g" using assms by simp
    ultimately have "g \<in> (\<lambda>j. j div N) ` {0..<G * N}"
      by (metis atLeastLessThan_iff image_eqI zero_le)
    then show "g \<in> set (sort (remdups (map (\<lambda>j. j div N) [0..<G * N])))" by simp
  qed
qed

lemma groups_of_blocks:
  assumes "0 < N"
  shows "groups_of (map (\<lambda>j. j div N) [0..<G * N]) = map (\<lambda>g. [g * N..<g * N + N]) [0..<G]"
proof -
  have "map (\<lambda>gid. filter (\<lambda>j. map (\<lambda>j. j div N) [0..<G * N] ! j = gid) [0..<G * N]) [0..<G]
          = map (\<lambda>g. [g * N..<g * N + N]) [0..<G]"
  proof (rule map_cong [OF refl])
    fix g assume "g \<in> set [0..<G]"
    then have g: "g < G" by simp
    have "filter (\<lambda>j. map (\<lambda>j. j div N) [0..<G * N] ! j = g) [0..<G * N]
            = filter (\<lambda>j. j div N = g) [0..<G * N]"
      by (rule filter_cong) auto
    with filter_div_block [OF assms g]
    show "filter (\<lambda>j. map (\<lambda>j. j div N) [0..<G * N] ! j = g) [0..<G * N] = [g * N..<g * N + N]"
      by simp
  qed
  then show ?thesis by (simp add: groups_of_def remdups_div_blocks [OF assms])
qed

lemma concat_blocks_upt: "concat (map (\<lambda>g. [g * N..<g * N + N]) [0..<G]) = [0..<G * N]"
proof (induction G)
  case 0
  then show ?case by simp
next
  case (Suc G)
  have "[0..<G * N + N] = [0..<G * N] @ [G * N..<G * N + N]"
    by (metis le_add1 upt_add_eq_append zero_le)
  with Suc show ?case by (simp add: add.commute)
qed






lemma fill_linear_valid: "xs ! i = Some v \<Longrightarrow> fill_linear xs i = Some v"
  by (simp add: fill_linear_def)




lemma interpolate_linear_valid:
  "i < length xs \<Longrightarrow> xs ! i = Some v \<Longrightarrow> interpolate_linear xs ! i = Some v"
  by (simp add: interpolate_linear_def fill_linear_valid)







lemma pivot_sorted:
  "sorted (p_index (pivot_table long))" "distinct (p_index (pivot_table long))"
  "sorted (p_columns (pivot_table long))" "distinct (p_columns (pivot_table long))"
  by (simp_all add: pivot_table_def Let_def)






lemma transform_Inr:
  assumes "transform policy df extrapolate add_bias_feature = Inr (x, groups, columns, bias_index)"
  shows "\<exists>q. interpolated (pivot_table (melt df)) extrapolate = Inr q
     \<and> p_columns (pivot_table (melt df)) \<noteq> []
     \<and> columns = from_product (unstacked_levels (stacked q)) [''metric'', ''tractID'', ''nodeID'']
     \<and> (policy = Raise \<longrightarrow> list_all (\<lambda>k. k \<in> set (map e_key (stacked q))) (to_numpy columns))
     \<and> (\<exists>membership. bundle_group_membership columns = Inr membership
            \<and> groups = groups_of membership)
     \<and> (\<exists>filled. filled = fillna (map (\<lambda>s. map (value_at (stacked q) s) (to_numpy columns))
                                      (unstacked_index (stacked q)))
                            (column_medians (map (\<lambda>s. map (value_at (stacked q) s) (to_numpy columns))
                                      (unstacked_index (stacked q))) (length (to_numpy columns)))
          \<and> (if add_bias_feature
              then x = Arr2 (length (to_numpy columns) + 1) (map (\<lambda>row. row @ [Some 1]) filled)
                   \<and> bias_index = Some (length (to_numpy columns))
              else x = Arr2 (length (to_numpy columns)) filled \<and> bias_index = None))"
  using assms
  by (auto simp: transform_def Let_def split: if_splits sum.splits)

lemma group_code_from_product_three:
  assumes "j < length A * length B * length C"
  shows "group_code (from_product [A, B, C] nms) j = j div length C"
proof -
  have "j div (length B * length C) * length B + j div length C mod length B = j div length C"
    by (metis div_mult2_eq mult.commute div_mult_mod_eq)
  with assms show ?thesis
    by (simp add: group_code_def from_product_three length_code_tuples nth_code_tuples)
qed

lemma div_mod_pair_eq:
  fixes a b T :: nat
  shows "(a div T = b div T \<and> a mod T = b mod T) \<longleftrightarrow> a = b"
  by (metis div_mult_mod_eq)

lemma key_pair_from_product_three:
  assumes "distinct A" "distinct B" "j < length A * length B * length C"
    "j' < length A * length B * length C"
  shows "take 2 (to_numpy (from_product [A, B, C] nms) ! j')
           = take 2 (to_numpy (from_product [A, B, C] nms) ! j)
         \<longleftrightarrow> j' div length C = j div length C"
proof -
  let ?T = "length B" and ?N = "length C"
  have N0: "0 < ?N" and T0: "0 < ?T" using assms(3) by (cases "?N"; cases "?T"; simp)+
  have a: "j div (?T * ?N) < length A" "j' div (?T * ?N) < length A"
    using assms(3,4) by (simp_all add: less_mult_imp_div_less mult.assoc)
  have b: "j div ?N mod ?T < ?T" "j' div ?N mod ?T < ?T" using T0 by simp_all
  have "take 2 (to_numpy (from_product [A, B, C] nms) ! j')
           = take 2 (to_numpy (from_product [A, B, C] nms) ! j)
        \<longleftrightarrow> A ! (j' div (?T * ?N)) = A ! (j div (?T * ?N))
            \<and> B ! (j' div ?N mod ?T) = B ! (j div ?N mod ?T)"
    using assms(3,4) by (simp add: to_numpy_from_product_three numeral_2_eq_2)
  also have "\<dots> \<longleftrightarrow> j' div (?T * ?N) = j div (?T * ?N) \<and> j' div ?N mod ?T = j div ?N mod ?T"
    using assms(1,2) a b by (simp add: nth_eq_iff_index_eq)
  also have "\<dots> \<longleftrightarrow> j' div ?N div ?T = j div ?N div ?T \<and> j' div ?N mod ?T = j div ?N mod ?T"
    by (simp only: mult.commute [of "length B" "length C"] div_mult2_eq)
  also have "\<dots> \<longleftrightarrow> j' div ?N = j div ?N"
    by (rule div_mod_pair_eq)
  finally show ?thesis .
qed

lemma unstacked_levels_three:
  "\<exists>A B C. unstacked_levels E = [A, B, C] \<and> distinct A \<and> distinct B \<and> distinct C
     \<and> length A = length (remdups (map e_metric E))
     \<and> length B = length (remdups (map e_tract E))
     \<and> length C = length (remdups (map e_node E))"
  by (simp add: unstacked_levels_def distinct_map inj_on_def)

lemma groups_of_Nil: "groups_of [] = []"
  by (simp add: groups_of_def)

lemma in_block_iff:
  assumes "0 < N"
  shows "j \<in> set [g * N..<g * N + N] \<longleftrightarrow> j div N = g"
proof
  assume "j \<in> set [g * N..<g * N + N]"
  then have a: "g * N \<le> j" and b: "j < g * N + N" by simp_all
  from a assms have "g \<le> j div N" by (simp add: less_eq_div_iff_mult_less_eq)
  moreover from b assms have "j div N < Suc g" by (simp add: div_less_iff_less_mult)
  ultimately show "j div N = g" by simp
next
  assume "j div N = g"
  with assms have "g * N \<le> j" "j < g * N + N"
    by (metis div_mult_mod_eq le_add1 mult.commute,
        metis add.commute div_mult_mod_eq mod_less_divisor mult.commute nat_add_left_cancel_less)
  then show "j \<in> set [g * N..<g * N + N]" by simp
qed

lemma product_groups:
  assumes "distinct A" "distinct B"
    and cols_def: "cols = from_product [A, B, C] [''metric'', ''tractID'', ''nodeID'']"
    and m: "bundle_group_membership cols = Inr membership"
    and groups_def: "groups = groups_of membership"
  shows "concat groups = [0..<n_keys cols]
       \<and> list_all (\<lambda>g. g \<noteq> []) groups
       \<and> (\<forall>g\<in>set groups. \<forall>j\<in>set g. \<forall>j'<n_keys cols.
             (j' \<in> set g) = (take 2 (to_numpy cols ! j') = take 2 (to_numpy cols ! j)))
       \<and> sorted_wrt (<) (map (\<lambda>g. group_code cols (hd g)) groups)"
proof (cases "length C = 0")
  case True
  with m have "membership = []"
    by (simp add: cols_def membership_from_product_three)
  with True show ?thesis
    by (simp add: groups_def groups_of_Nil cols_def n_keys_from_product_three)
next
  case False
  let ?M = "length A" and ?T = "length B" and ?N = "length C"
  let ?K = "?M * ?T * ?N"
  from False have N0: "0 < ?N" by simp
  from m have mem: "membership = map (\<lambda>j. j div ?N) [0..<?M * ?T * ?N]"
    by (simp add: cols_def membership_from_product_three)
  have groups: "groups = map (\<lambda>g. [g * ?N..<g * ?N + ?N]) [0..<?M * ?T]"
    unfolding groups_def mem by (rule groups_of_blocks [OF N0])
  have nk: "n_keys cols = ?K" by (simp add: cols_def n_keys_from_product_three)
  have c1: "concat groups = [0..<n_keys cols]"
    by (simp add: groups nk concat_blocks_upt)
  have c2: "list_all (\<lambda>g. g \<noteq> []) groups"
    using N0 by (simp add: groups list_all_iff)
  have c3: "\<forall>g\<in>set groups. \<forall>j\<in>set g. \<forall>j'<n_keys cols.
             (j' \<in> set g) = (take 2 (to_numpy cols ! j') = take 2 (to_numpy cols ! j))"
  proof (intro ballI allI impI)
    fix g j j' assume g: "g \<in> set groups" and j: "j \<in> set g" and j': "j' < n_keys cols"
    from g obtain k where k: "k < ?M * ?T" "g = [k * ?N..<k * ?N + ?N]"
      by (auto simp: groups)
    from j k have jk: "j div ?N = k" by (simp only: in_block_iff [OF N0])
    have "(k + 1) * ?N \<le> ?M * ?T * ?N" using k(1) by (intro mult_le_mono1) simp
    with j k have jlt: "j < ?K" by simp
    have "(j' \<in> set g) = (j' div ?N = k)" using k by (simp only: in_block_iff [OF N0])
    also have "\<dots> = (j' div ?N = j div ?N)" using jk by simp
    also have "\<dots> = (take 2 (to_numpy cols ! j') = take 2 (to_numpy cols ! j))"
      unfolding cols_def
      using key_pair_from_product_three [OF assms(1,2) jlt, of j'] j' nk
      by (simp add: cols_def)
    finally show "(j' \<in> set g) = (take 2 (to_numpy cols ! j') = take 2 (to_numpy cols ! j))" .
  qed
  have "map (\<lambda>g. group_code cols (hd g)) groups = [0..<?M * ?T]"
  proof (rule nth_equalityI)
    show "length (map (\<lambda>g. group_code cols (hd g)) groups) = length [0..<?M * ?T]"
      by (simp add: groups)
  next
    fix k assume "k < length (map (\<lambda>g. group_code cols (hd g)) groups)"
    then have k: "k < ?M * ?T" by (simp add: groups)
    with N0 have lt: "k * ?N < ?K" by simp
    have "hd [k * ?N..<k * ?N + ?N] = k * ?N" using N0 by (simp add: upt_rec)
    with k lt N0 show "map (\<lambda>g. group_code cols (hd g)) groups ! k = [0..<?M * ?T] ! k"
      by (simp add: groups cols_def group_code_from_product_three)
  qed
  then have c4: "sorted_wrt (<) (map (\<lambda>g. group_code cols (hd g)) groups)"
    by (simp add: sorted_wrt_upt)
  from c1 c2 c3 c4 show ?thesis by blast
qed

text \<open>
  Claim C6. Whenever \<^verbatim>\<open>transform\<close> returns, the groups, read in order, list every
  non-bias column position exactly once and in increasing order, so they are contiguous
  blocks that partition the non-bias columns; no group is empty; a group holds exactly
  the columns that share the metric and the tract of any of its members; and the groups
  are in strictly increasing order of the integer code, metric rank times number of
  tracts plus tract rank.
\<close>

theorem transform_groups_partition:
  assumes "transform policy df extrapolate add_bias_feature = Inr (x, groups, columns, bias_index)"
  shows "ncols x = n_keys columns + (if add_bias_feature then 1 else 0)
       \<and> concat groups = [0..<n_keys columns]
       \<and> list_all (\<lambda>g. g \<noteq> []) groups
       \<and> (\<forall>g\<in>set groups. \<forall>j\<in>set g. \<forall>j'<n_keys columns.
             (j' \<in> set g) = (take 2 (to_numpy columns ! j') = take 2 (to_numpy columns ! j)))
       \<and> sorted_wrt (<) (map (\<lambda>g. group_code columns (hd g)) groups)"
proof -
  from transform_Inr [OF assms] obtain q membership where
    cols: "columns = from_product (unstacked_levels (stacked q)) [''metric'', ''tractID'', ''nodeID'']"
    and m: "bundle_group_membership columns = Inr membership"
    and g: "groups = groups_of membership"
    and x: "if add_bias_feature
            then \<exists>rows. x = Arr2 (length (to_numpy columns) + 1) rows
            else \<exists>rows. x = Arr2 (length (to_numpy columns)) rows"
    by (auto split: if_splits)
  from unstacked_levels_three [of "stacked q"] obtain A B C where
    lv: "unstacked_levels (stacked q) = [A, B, C]" and d: "distinct A" "distinct B"
    by blast
  from x have "ncols x = n_keys columns + (if add_bias_feature then 1 else 0)"
    by (auto simp: length_to_numpy split: if_splits)
  with product_groups [OF d _ m g, of C] cols lv show ?thesis by simp
qed

lemma ex_grid_eval:
  "transform Raise ex_grid False False
     = Inr (Arr2 4 [[Some 1, Some 2, Some 3, Some 4], [Some 5, Some 6, Some 7, Some 8]],
            [[0, 1], [2, 3]], ex_grid_columns, None)"
  by code_simp

theorem transform_groups_partition_witness:
  "transform Raise ex_grid False False
     = Inr (Arr2 4 [[Some 1, Some 2, Some 3, Some 4], [Some 5, Some 6, Some 7, Some 8]],
            [[0, 1], [2, 3]], ex_grid_columns, None)
   \<and> concat [[0, 1], [2, 3]] = [0..<n_keys ex_grid_columns]
   \<and> sorted_wrt (<) (map (\<lambda>g. group_code ex_grid_columns (hd g)) [[0, 1], [2, 3]])"
  using transform_groups_partition [OF ex_grid_eval] ex_grid_eval by blast













lemma ex_ragged_eval:
  "transform Raise ex_ragged False True
     = Inr (Arr2 5 [[Some 1, Some 2, Some 3, Some 3, Some 1]],
            [[0, 1], [2, 3]], ex_grid_columns, Some 4)"
  "transform Reindex ex_ragged False True
     = Inr (Arr2 5 [[Some 1, Some 2, Some 3, Some 3, Some 1]],
            [[0, 1], [2, 3]], ex_grid_columns, Some 4)"
  by code_simp+


end
